theory Spec2Isabelle
  imports Complex_Main "HOL-Library.Sublist"
begin

section \<open>Strings\<close>

text \<open>
  Python strings are modelled as \<^typ>\<open>string\<close>.  \<open>str.lower()\<close> is modelled on the
  ASCII letters, which is where all trigger words and error keywords of the program live;
  \<open>t in s\<close> is the substring test.
\<close>

definition lower_char :: "char \<Rightarrow> char" where
  "lower_char c =
     (let n = (of_char c :: nat) in if 65 \<le> n \<and> n \<le> 90 then char_of (n + 32) else c)"

definition lower :: "string \<Rightarrow> string" where
  "lower s = map lower_char s"

fun contains :: "string \<Rightarrow> string \<Rightarrow> bool" where
  "contains t [] = (t = [])"
| "contains t (c # cs) = (prefix t (c # cs) \<or> contains t cs)"

text \<open>\<open>any(trigger in text for trigger in triggers)\<close>\<close>

definition any_in :: "string list \<Rightarrow> string \<Rightarrow> bool" where
  "any_in triggers text = list_ex (\<lambda>trigger. contains trigger text) triggers"

text \<open>\<open>str(n)\<close> for a non-negative integer, and \<open>"\\n".join(lines)\<close>.\<close>

fun str_nat :: "nat \<Rightarrow> string" where
  "str_nat n =
     (if n < 10 then [char_of (48 + n)]
      else str_nat (n div 10) @ [char_of (48 + n mod 10)])"

declare str_nat.simps [simp del]

fun join_lines :: "string list \<Rightarrow> string" where
  "join_lines [] = []"
| "join_lines [l] = l"
| "join_lines (l # m # ls) = l @ [CHR 0x0A] @ join_lines (m # ls)"

section \<open>The agent and its environment (agentic\_engine.py)\<close>

text \<open>
  An exception is represented by its text \<open>str(e)\<close>; a call that may raise returns
  \<open>Inl\<close> of that text, or \<open>Inr\<close> of its result.  Only exceptions derived from
  \<open>Exception\<close> are modelled.

  The instance attributes of \<open>NeuroSyncAgent\<close> are the fields of a record.  The wall
  clock read by \<open>time.time()\<close> is the field \<open>clock\<close> (seconds, as a real number);
  \<open>remote\<close> is the state of the outside world that the remote model depends on.
  \<open>events\<close> records, in order, the sleeps and the outbound calls that were made.
\<close>

type_synonym exn = string

datatype role = User | Assistant

type_synonym turn = "role \<times> string"

datatype event = Sleep real | LlmInvoke string | AgentRun string

record conversation_memory =
  k :: nat
  chat_history :: "turn list"

record 'r agent_state =
  clock :: real
  last_api_call :: real
  min_call_interval :: real
  knowledge_base :: "string list"
  memory :: conversation_memory
  remote :: 'r
  events :: "event list"

text \<open>
  The two remote capabilities.  \<open>llm.invoke(prompt)\<close> depends on the prompt and the
  outside world only: it yields the content of the reply or raises, takes some time, and
  changes the outside world.  \<open>agent.run(input=message)\<close> is the tool-using agent
  built by \<open>setup_agent\<close> from the tools, the model and the memory: it may read and
  change every part of the agent's state.  \<open>search.run\<close> and \<open>wikipedia.run\<close> are
  the two external lookups.  \<open>interpreter\<close> stands for \<open>str(eval(text))\<close> of the
  Python interpreter on the expressions that the integer evaluator below does not cover
  (\<open>None\<close> when it raises).
\<close>

record 'r env =
  llm :: "string \<Rightarrow> 'r \<Rightarrow> (exn + string) \<times> real \<times> 'r"
  agent :: "string \<Rightarrow> 'r agent_state \<Rightarrow> (exn + string) \<times> 'r agent_state"
  search_run :: "string \<Rightarrow> 'r \<Rightarrow> (exn + string) \<times> 'r"
  wikipedia_run :: "string \<Rightarrow> 'r \<Rightarrow> (exn + string) \<times> 'r"
  interpreter :: "string \<Rightarrow> string option"

definition setup_memory :: conversation_memory where
  "setup_memory = \<lparr>k = 10, chat_history = []\<rparr>"

definition init :: "real \<Rightarrow> 'r \<Rightarrow> 'r agent_state" where
  "init now r =
     \<lparr>clock = now, last_api_call = 0, min_call_interval = 2, knowledge_base = [],
      memory = setup_memory, remote = r, events = []\<rparr>"

definition sleep :: "real \<Rightarrow> 'r agent_state \<Rightarrow> 'r agent_state" where
  "sleep d s = s\<lparr>clock := clock s + d, events := events s @ [Sleep d]\<rparr>"

definition llm_invoke :: "'r env \<Rightarrow> string \<Rightarrow> 'r agent_state \<Rightarrow> (exn + string) \<times> 'r agent_state" where
  "llm_invoke E prompt s =
     (case llm E prompt (remote s) of
        (outcome, d, r') \<Rightarrow>
          (outcome, s\<lparr>clock := clock s + d, remote := r', events := events s @ [LlmInvoke prompt]\<rparr>))"

definition agent_run :: "'r env \<Rightarrow> string \<Rightarrow> 'r agent_state \<Rightarrow> (exn + string) \<times> 'r agent_state" where
  "agent_run E message s = agent E message (s\<lparr>events := events s @ [AgentRun message]\<rparr>)"

subsection \<open>rate\_limited\_call\<close>

text \<open>
  The test \<open>"429" in str(e) or "quota" in str(e).lower() or "rate" in str(e).lower()\<close>,
  which the source writes out in \<open>rate_limited_call\<close> and again in
  \<open>generate_response\<close>.
\<close>

definition rate_limit_text :: "exn \<Rightarrow> bool" where
  "rate_limit_text e \<longleftrightarrow>
     contains ''429'' e \<or> contains ''quota'' (lower e) \<or> contains ''rate'' (lower e)"

text \<open>The throttle at the head of \<open>rate_limited_call\<close>.\<close>

definition throttle :: "'r agent_state \<Rightarrow> 'r agent_state" where
  "throttle s =
     (let current_time = clock s;
          time_since_last_call = current_time - last_api_call s
      in if time_since_last_call < min_call_interval s
         then sleep (min_call_interval s - time_since_last_call) s
         else s)"

definition rate_limited_call ::
  "('r agent_state \<Rightarrow> (exn + 'a) \<times> 'r agent_state) \<Rightarrow> 'r agent_state \<Rightarrow> (exn + 'a) \<times> 'r agent_state" where
  "rate_limited_call func s =
     (case func (throttle s) of
        (Inr result, s1) \<Rightarrow> (Inr result, s1\<lparr>last_api_call := clock s1\<rparr>)
      | (Inl e, s1) \<Rightarrow>
          if rate_limit_text e then
            (case func (sleep 5 s1) of
               (Inr result, s2) \<Rightarrow> (Inr result, s2\<lparr>last_api_call := clock s2\<rparr>)
             | (Inl retry_error, s2) \<Rightarrow> (Inl retry_error, s2))
          else (Inl e, s1))"

subsection \<open>The Calculator tool\<close>

text \<open>
  \<open>calculator\<close> filters the query and hands the rest to Python's \<open>eval\<close>.  The
  evaluator below gives the interpreter's answer on the integer fragment of Python's
  expression language: decimal integer literals, unary and binary \<open>+\<close> and \<open>-\<close>,
  \<open>*\<close>, floor division \<open>//\<close> and parentheses, of at most 100 tokens, with literals
  and result of at most 4300 digits.  Everything else (true division and floating-point
  literals, \<open>**\<close>, the empty tuple \<open>()\<close>, call syntax, very long input) is left to
  the \<open>interpreter\<close> of the environment.
\<close>

datatype token =
  Num string | Plus | Minus | Times | FloorDiv | TrueDiv | Pow | LParen | RParen | Dot | Other

definition is_digit :: "char \<Rightarrow> bool" where
  "is_digit c = (let n = (of_char c :: nat) in 48 \<le> n \<and> n \<le> 57)"

function lex :: "string \<Rightarrow> token list" where
  "lex [] = []"
| "lex (c # cs) =
     (if is_digit c then Num (c # takeWhile is_digit cs) # lex (dropWhile is_digit cs)
      else if c = CHR '' '' then lex cs
      else if c = CHR ''+'' then Plus # lex cs
      else if c = CHR ''-'' then Minus # lex cs
      else if c = CHR ''('' then LParen # lex cs
      else if c = CHR '')'' then RParen # lex cs
      else if c = CHR ''.'' then Dot # lex cs
      else if c = CHR ''*'' then
        (case cs of d # ds \<Rightarrow> if d = CHR ''*'' then Pow # lex ds else Times # lex cs
         | [] \<Rightarrow> [Times])
      else if c = CHR ''/'' then
        (case cs of d # ds \<Rightarrow> if d = CHR ''/'' then FloorDiv # lex ds else TrueDiv # lex cs
         | [] \<Rightarrow> [TrueDiv])
      else Other # lex cs)"
  by pat_completeness auto
termination
  by (relation "measure length") (auto simp: less_Suc_eq_le length_dropWhile_le)

fun is_call :: "token list \<Rightarrow> bool" where
  "is_call (Num ds # LParen # ts) = True"
| "is_call (RParen # LParen # ts) = True"
| "is_call (LParen # RParen # ts) = True"
| "is_call (t # ts) = is_call ts"
| "is_call [] = False"

fun plain_token :: "token \<Rightarrow> bool" where
  "plain_token (Num ds) = (length ds \<le> 4300)"
| "plain_token TrueDiv = False"
| "plain_token Pow = False"
| "plain_token Dot = False"
| "plain_token Other = False"
| "plain_token t = True"

definition in_fragment :: "token list \<Rightarrow> bool" where
  "in_fragment ts \<longleftrightarrow> length ts \<le> 100 \<and> list_all plain_token ts \<and> \<not> is_call ts"

text \<open>A decimal literal is either a non-zero digit followed by digits, or zeros only.\<close>

fun literal_ok :: "token \<Rightarrow> bool" where
  "literal_ok (Num ds) = (hd ds \<noteq> CHR ''0'' \<or> list_all (\<lambda>d. d = CHR ''0'') ds)"
| "literal_ok t = True"

definition literal_value :: "string \<Rightarrow> int" where
  "literal_value ds = foldl (\<lambda>a d. 10 * a + int (of_char d - 48)) 0 ds"

datatype expr =
  Lit int | Pos expr | Neg expr | Add expr expr | Sub expr expr | Mul expr expr
  | FDiv expr expr

datatype opr = OAdd | OSub | OMul | OFDiv | OPos | ONeg | OParen

fun prec :: "opr \<Rightarrow> nat" where
  "prec OAdd = 1"
| "prec OSub = 1"
| "prec OMul = 2"
| "prec OFDiv = 2"
| "prec OPos = 3"
| "prec ONeg = 3"
| "prec OParen = 0"

fun apply_opr :: "opr \<Rightarrow> expr list \<Rightarrow> expr list option" where
  "apply_opr OAdd (b # a # out) = Some (Add a b # out)"
| "apply_opr OSub (b # a # out) = Some (Sub a b # out)"
| "apply_opr OMul (b # a # out) = Some (Mul a b # out)"
| "apply_opr OFDiv (b # a # out) = Some (FDiv a b # out)"
| "apply_opr OPos (a # out) = Some (Pos a # out)"
| "apply_opr ONeg (a # out) = Some (Neg a # out)"
| "apply_opr _ _ = None"

text \<open>Build the operations on the stack that bind at least as tightly as \<open>p\<close>.\<close>

fun reduce :: "nat \<Rightarrow> opr list \<Rightarrow> expr list \<Rightarrow> (opr list \<times> expr list) option" where
  "reduce p [] out = Some ([], out)"
| "reduce p (OParen # ops) out = Some (OParen # ops, out)"
| "reduce p (opr # ops) out =
     (if p \<le> prec opr
      then (case apply_opr opr out of None \<Rightarrow> None | Some out' \<Rightarrow> reduce p ops out')
      else Some (opr # ops, out))"

text \<open>
  The parser reads the tokens from left to right; the flag says whether an operand is
  expected next.  \<open>None\<close> is a syntax error.
\<close>

fun binary :: "token \<Rightarrow> opr option" where
  "binary Plus = Some OAdd"
| "binary Minus = Some OSub"
| "binary Times = Some OMul"
| "binary FloorDiv = Some OFDiv"
| "binary t = None"

fun parse :: "bool \<Rightarrow> token list \<Rightarrow> opr list \<Rightarrow> expr list \<Rightarrow> expr option" where
  "parse True (Num ds # ts) ops out = parse False ts ops (Lit (literal_value ds) # out)"
| "parse True (Plus # ts) ops out = parse True ts (OPos # ops) out"
| "parse True (Minus # ts) ops out = parse True ts (ONeg # ops) out"
| "parse True (LParen # ts) ops out = parse True ts (OParen # ops) out"
| "parse True ts ops out = None"
| "parse False [] ops out =
     (case reduce 1 ops out of Some ([], [e]) \<Rightarrow> Some e | _ \<Rightarrow> None)"
| "parse False (RParen # ts) ops out =
     (case reduce 1 ops out of Some (OParen # ops', out') \<Rightarrow> parse False ts ops' out'
      | _ \<Rightarrow> None)"
| "parse False (t # ts) ops out =
     (case binary t of
        None \<Rightarrow> None
      | Some opr \<Rightarrow>
          (case reduce (prec opr) ops out of
             None \<Rightarrow> None
           | Some (ops', out') \<Rightarrow> parse True ts (opr # ops') out'))"

text \<open>Integer arithmetic; \<open>None\<close> is ZeroDivisionError.  \<open>//\<close> rounds down.\<close>

fun eval_expr :: "expr \<Rightarrow> int option" where
  "eval_expr (Lit n) = Some n"
| "eval_expr (Pos a) = eval_expr a"
| "eval_expr (Neg a) = map_option uminus (eval_expr a)"
| "eval_expr (Add a b) =
     (case (eval_expr a, eval_expr b) of (Some x, Some y) \<Rightarrow> Some (x + y) | _ \<Rightarrow> None)"
| "eval_expr (Sub a b) =
     (case (eval_expr a, eval_expr b) of (Some x, Some y) \<Rightarrow> Some (x - y) | _ \<Rightarrow> None)"
| "eval_expr (Mul a b) =
     (case (eval_expr a, eval_expr b) of (Some x, Some y) \<Rightarrow> Some (x * y) | _ \<Rightarrow> None)"
| "eval_expr (FDiv a b) =
     (case (eval_expr a, eval_expr b) of
        (Some x, Some y) \<Rightarrow> if y = 0 then None else Some (x div y)
      | _ \<Rightarrow> None)"

definition str_int :: "int \<Rightarrow> string" where
  "str_int v = (if v < 0 then CHR ''-'' # str_nat (nat (- v)) else str_nat (nat v))"

datatype eval_error = SyntaxError | ZeroDivisionError | InterpreterError

text \<open>\<open>str(eval(text))\<close>\<close>

definition eval_str :: "(string \<Rightarrow> string option) \<Rightarrow> string \<Rightarrow> eval_error + string" where
  "eval_str other text =
     (let ts = lex text;
          beyond = (case other text of None \<Rightarrow> Inl InterpreterError | Some r \<Rightarrow> Inr r)
      in if \<not> in_fragment ts then beyond
         else if \<not> list_all literal_ok ts then Inl SyntaxError
         else (case parse True ts [] [] of
                 None \<Rightarrow> Inl SyntaxError
               | Some e \<Rightarrow>
                   (case eval_expr e of
                      None \<Rightarrow> Inl ZeroDivisionError
                    | Some v \<Rightarrow>
                        if length (str_nat (nat \<bar>v\<bar>)) \<le> 4300 then Inr (str_int v)
                        else beyond)))"

definition cleaned_query :: "string \<Rightarrow> string" where
  "cleaned_query query = filter (\<lambda>c. c \<in> set ''0123456789+-*/(). '') query"

definition calculator :: "(string \<Rightarrow> string option) \<Rightarrow> string \<Rightarrow> string" where
  "calculator other query =
     (case eval_str other (cleaned_query query) of
        Inr result \<Rightarrow> result
      | Inl e \<Rightarrow>
          ''I couldn't calculate that expression. Please provide a valid mathematical expression.'')"

subsection \<open>The knowledge base tools\<close>

text \<open>\<open>xs[-5:]\<close> and \<open>[f"{i+1}. {kb}" for i, kb in enumerate(xs)]\<close>\<close>

definition last5 :: "'a list \<Rightarrow> 'a list" where
  "last5 xs = drop (length xs - 5) xs"

definition numbered :: "string list \<Rightarrow> string list" where
  "numbered xs = map (\<lambda>(i, kb). str_nat (i + 1) @ ''. '' @ kb) (enumerate 0 xs)"

definition knowledge_search :: "string \<Rightarrow> 'r agent_state \<Rightarrow> string" where
  "knowledge_search query s =
     (if knowledge_base s \<noteq> [] then join_lines (numbered (last5 (knowledge_base s)))
      else ''No knowledge available yet.'')"

definition add_to_knowledge :: "string \<Rightarrow> 'r agent_state \<Rightarrow> string \<times> 'r agent_state" where
  "add_to_knowledge new_fact s =
     (''Added to knowledge base: '' @ new_fact,
      s\<lparr>knowledge_base := knowledge_base s @ [new_fact]\<rparr>)"

subsection \<open>The two prompt tools\<close>

definition roadmap_prompt :: "string \<Rightarrow> string" where
  "roadmap_prompt query =
     [CHR 0x0A] @ ''            Create a detailed roadmap for: '' @ query @
     [CHR 0x0A] @ ''            Format it as a step-by-step guide with clear phases and milestones.'' @
     [CHR 0x0A] @ ''            Include estimated timeframes for each phase if possible.'' @
     [CHR 0x0A] @ ''            ''"

definition code_prompt :: "string \<Rightarrow> string" where
  "code_prompt query =
     [CHR 0x0A] @ ''            Help with this coding request: '' @ query @
     [CHR 0x0A] @ ''            Provide clear, concise code examples with explanations.'' @
     [CHR 0x0A] @ ''            If it's a complex problem, break it down into steps.'' @
     [CHR 0x0A] @ ''            Format code examples using triple backticks with the language name.'' @
     [CHR 0x0A] @ ''            ''"

definition generate_roadmap :: "'r env \<Rightarrow> string \<Rightarrow> 'r agent_state \<Rightarrow> (exn + string) \<times> 'r agent_state" where
  "generate_roadmap E query s =
     (case rate_limited_call (llm_invoke E (roadmap_prompt query)) s of
        (Inr content, s') \<Rightarrow> (Inr content, s')
      | (Inl e, s') \<Rightarrow> (Inr ''I couldn't generate a roadmap due to an error.'', s'))"

definition code_helper :: "'r env \<Rightarrow> string \<Rightarrow> 'r agent_state \<Rightarrow> (exn + string) \<times> 'r agent_state" where
  "code_helper E query s =
     (case rate_limited_call (llm_invoke E (code_prompt query)) s of
        (Inr content, s') \<Rightarrow> (Inr content, s')
      | (Inl e, s') \<Rightarrow> (Inr ''I couldn't generate code due to an error.'', s'))"

subsection \<open>The tool list and the router\<close>

record 'r tool =
  tool_name :: string
  tool_func :: "string \<Rightarrow> 'r agent_state \<Rightarrow> (exn + string) \<times> 'r agent_state"

definition external :: "(string \<Rightarrow> 'r \<Rightarrow> (exn + string) \<times> 'r) \<Rightarrow> string \<Rightarrow> 'r agent_state \<Rightarrow> (exn + string) \<times> 'r agent_state" where
  "external f query s = (case f query (remote s) of (outcome, r') \<Rightarrow> (outcome, s\<lparr>remote := r'\<rparr>))"

definition tools :: "'r env \<Rightarrow> 'r tool list" where
  "tools E =
     [\<lparr>tool_name = ''Web Search'', tool_func = external (search_run E)\<rparr>,
      \<lparr>tool_name = ''Wikipedia'', tool_func = external (wikipedia_run E)\<rparr>,
      \<lparr>tool_name = ''Calculator'',
       tool_func = (\<lambda>query s. (Inr (calculator (interpreter E) query), s))\<rparr>,
      \<lparr>tool_name = ''Knowledge Base'',
       tool_func = (\<lambda>query s. (Inr (knowledge_search query s), s))\<rparr>,
      \<lparr>tool_name = ''Add Knowledge'',
       tool_func = (\<lambda>query s. case add_to_knowledge query s of (r, s') \<Rightarrow> (Inr r, s'))\<rparr>,
      \<lparr>tool_name = ''Roadmap Generator'', tool_func = generate_roadmap E\<rparr>,
      \<lparr>tool_name = ''Code Helper'', tool_func = code_helper E\<rparr>]"

definition roadmap_triggers :: "string list" where
  "roadmap_triggers = [''roadmap'', ''learning path'', ''step by step'', ''plan'', ''timeline'']"

definition code_triggers :: "string list" where
  "code_triggers =
     [''code'', ''program'', ''function'', ''algorithm'', ''script'', ''python'',
      ''javascript'', ''java'']"

text \<open>The body of the \<open>try\<close> block of \<open>generate_response\<close>.\<close>

definition generate_response_try :: "'r env \<Rightarrow> string \<Rightarrow> 'r agent_state \<Rightarrow> (exn + string) \<times> 'r agent_state" where
  "generate_response_try E message s =
     (if any_in roadmap_triggers (lower message) then tool_func (tools E ! 5) message s
      else if any_in code_triggers (lower message) then tool_func (tools E ! 6) message s
      else rate_limited_call (agent_run E message) s)"

text \<open>
  \<open>generate_response\<close> with its handler.  \<open>Inl\<close> would be an exception that reaches
  the caller.
\<close>

definition generate_response :: "'r env \<Rightarrow> string \<Rightarrow> 'r agent_state \<Rightarrow> (exn + string) \<times> 'r agent_state" where
  "generate_response E message s =
     (case generate_response_try E message s of
        (Inr response, s') \<Rightarrow> (Inr response, s')
      | (Inl error_msg, s') \<Rightarrow>
          if rate_limit_text error_msg then (Inr ''I'm currently facing issue'', s')
          else (Inr ''I am currently facing issue'', s'))"

subsection \<open>Observing a run\<close>

text \<open>
  An event is \<open>quiet\<close> for a prompt when it is a sleep or a call of the remote model
  with exactly that prompt; a run of the general agent is never quiet.
\<close>

fun quiet :: "string \<Rightarrow> event \<Rightarrow> bool" where
  "quiet p (Sleep d) = True"
| "quiet p (LlmInvoke q) = (q = p)"
| "quiet p (AgentRun m) = False"

text \<open>Adding facts one after the other with the Add Knowledge tool.\<close>

fun add_facts :: "string list \<Rightarrow> 'r agent_state \<Rightarrow> 'r agent_state" where
  "add_facts [] s = s"
| "add_facts (f # fs) s = add_facts fs (snd (add_to_knowledge f s))"

text \<open>
  The post-condition that the specification gives for the conversation memory, in the
  specification's words: the new turn (user message, assistant response) is appended, then
  the memory is pruned to the last \<open>K\<close> turns, oldest dropped first.
\<close>

definition spec_append_and_prune :: "nat \<Rightarrow> turn list \<Rightarrow> string \<Rightarrow> string \<Rightarrow> turn list" where
  "spec_append_and_prune K history message response =
     (let appended = history @ [(User, message), (Assistant, response)]
      in drop (length appended - K) appended)"

text \<open>
  Concrete environments for running the definitions: the outside world is a counter of the
  calls made; the remote model answers \<open>ok\<close> after one second, or always fails with a
  quota error, or with a transport error; the general agent answers \<open>hi\<close> or fails in
  the same two ways, and leaves the agent's state alone.
\<close>

definition demo_env :: "nat env" where
  "demo_env =
     \<lparr>llm = (\<lambda>prompt r. (Inr ''ok'', 1, Suc r)),
      agent = (\<lambda>message s. (Inr ''hi'', s\<lparr>remote := Suc (remote s)\<rparr>)),
      search_run = (\<lambda>query r. (Inr ''found'', Suc r)),
      wikipedia_run = (\<lambda>query r. (Inr ''article'', Suc r)),
      interpreter = (\<lambda>text. None)\<rparr>"

definition quota_env :: "nat env" where
  "quota_env =
     demo_env
       \<lparr>llm := (\<lambda>prompt r. (Inl ''429 Resource exhausted'', 1, Suc r)),
        agent := (\<lambda>message s. (Inl ''Quota exceeded'', s\<lparr>remote := Suc (remote s)\<rparr>))\<rparr>"

definition broken_env :: "nat env" where
  "broken_env =
     demo_env
       \<lparr>llm := (\<lambda>prompt r. (Inl ''connection reset'', 1, Suc r)),
        agent := (\<lambda>message s. (Inl ''connection reset'', s\<lparr>remote := Suc (remote s)\<rparr>))\<rparr>"

definition flaky_env :: "nat env" where
  "flaky_env =
     demo_env
       \<lparr>llm := (\<lambda>prompt r. (if r = 0 then Inl ''Rate limit hit'' else Inr ''ok'', 1, Suc r))\<rparr>"

definition demo_state :: "nat agent_state" where
  "demo_state = init 100 0"

text \<open>
  A wrapped function that fails on every call, with a quota error on the first call and
  with another error afterwards, and counts its calls in the outside world.
\<close>

definition failing :: "nat agent_state \<Rightarrow> (exn + string) \<times> nat agent_state" where
  "failing s =
     (Inl (if remote s = 0 then ''HTTP 429 too many requests'' else ''second failure''),
      s\<lparr>remote := Suc (remote s)\<rparr>)"

section \<open>Sessions (auth.py)\<close>

text \<open>
  \<open>datetime.now()\<close> is a naive date and time of the machine's local zone, with
  microseconds.  \<open>create_session_token\<close> adds seven days to it and hands it to
  \<open>sqlite3\<close>, whose adapter stores the text \<open>isoformat(" ")\<close>: the fields padded with
  zeros, and the six digits of the microseconds only when they are not zero.  Adding days
  to a naive datetime moves the calendar date and keeps the time of day; a year beyond 9999
  is an OverflowError.
\<close>

record datetime =
  year :: nat
  month :: nat
  day :: nat
  hour :: nat
  minute :: nat
  second :: nat
  microsecond :: nat

definition is_leap :: "nat \<Rightarrow> bool" where
  "is_leap y \<longleftrightarrow> (y mod 4 = 0 \<and> y mod 100 \<noteq> 0) \<or> y mod 400 = 0"

definition days_in_month :: "nat \<Rightarrow> nat \<Rightarrow> nat" where
  "days_in_month y m =
     (if m = 2 then (if is_leap y then 29 else 28)
      else if m = 4 \<or> m = 6 \<or> m = 9 \<or> m = 11 then 30 else 31)"

definition valid_datetime :: "datetime \<Rightarrow> bool" where
  "valid_datetime d \<longleftrightarrow>
     1 \<le> year d \<and> year d \<le> 9999 \<and> 1 \<le> month d \<and> month d \<le> 12
     \<and> 1 \<le> day d \<and> day d \<le> days_in_month (year d) (month d)
     \<and> hour d < 24 \<and> minute d < 60 \<and> second d < 60 \<and> microsecond d < 1000000"

definition next_day :: "datetime \<Rightarrow> datetime" where
  "next_day d =
     (if day d < days_in_month (year d) (month d) then d\<lparr>day := day d + 1\<rparr>
      else if month d < 12 then d\<lparr>month := month d + 1, day := 1\<rparr>
      else d\<lparr>year := year d + 1, month := 1, day := 1\<rparr>)"

fun plus_days :: "nat \<Rightarrow> datetime \<Rightarrow> datetime" where
  "plus_days 0 d = d"
| "plus_days (Suc n) d = plus_days n (next_day d)"

text \<open>
  Texts are compared as SQLite compares them: byte by byte, a proper prefix being smaller.
\<close>

fun text_less :: "string \<Rightarrow> string \<Rightarrow> bool" where
  "text_less [] [] = False"
| "text_less [] (y # ys) = True"
| "text_less (x # xs) [] = False"
| "text_less (x # xs) (y # ys) =
     ((of_char x :: nat) < of_char y \<or> (x = y \<and> text_less xs ys))"

definition pad :: "nat \<Rightarrow> nat \<Rightarrow> string" where
  "pad w n = replicate (w - length (str_nat n)) CHR ''0'' @ str_nat n"

definition isoformat :: "datetime \<Rightarrow> string" where
  "isoformat d =
     pad 4 (year d) @ ''-'' @ pad 2 (month d) @ ''-'' @ pad 2 (day d) @ '' '' @
     pad 2 (hour d) @ '':'' @ pad 2 (minute d) @ '':'' @ pad 2 (second d) @
     (if microsecond d = 0 then [] else ''.'' @ pad 6 (microsecond d))"

text \<open>
  The machine has two readings of the time: the local one, which \<open>datetime.now()\<close>
  returns, and the one in UTC, from which SQLite forms \<open>CURRENT_TIMESTAMP\<close>, a text of
  whole seconds.  The table \<open>user_sessions\<close> is a list of rows holding the texts as
  stored.  \<open>openable\<close> says that \<open>sqlite3.connect\<close> succeeds and \<open>queryable\<close> that
  the statement can be executed.  In \<open>verify_session_token\<close> the connection is opened
  before the \<open>try\<close>, so a failure to open raises, while a failing statement is caught
  and gives \<open>None\<close>; \<open>create_session_token\<close> has no handler.  The token that
  \<open>create_session_token\<close> derives from the user id, the time and 16 random bytes is a
  parameter.
\<close>

record wall_clock =
  local_now :: datetime
  utc_now :: datetime

definition current_timestamp :: "wall_clock \<Rightarrow> string" where
  "current_timestamp c = isoformat ((utc_now c)\<lparr>microsecond := 0\<rparr>)"

record session_row =
  user_id :: int
  session_token :: string
  created_at :: string
  expires_at :: string

record database =
  openable :: bool
  queryable :: bool
  user_sessions :: "session_row list"

datatype db_error = OperationalError | IntegrityError | OverflowError

definition create_session_token ::
  "database \<Rightarrow> wall_clock \<Rightarrow> string \<Rightarrow> int \<Rightarrow> (db_error + string) \<times> database" where
  "create_session_token db c token uid =
     (if \<not> openable db then (Inl OperationalError, db)
      else let expires = plus_days 7 (local_now c)
           in if 9999 < year expires then (Inl OverflowError, db)
              else if \<not> queryable db then (Inl OperationalError, db)
              else if token \<in> set (map session_token (user_sessions db))
                then (Inl IntegrityError, db)
              else (Inr token,
                    db\<lparr>user_sessions := user_sessions db @
                        [\<lparr>user_id = uid, session_token = token,
                          created_at = current_timestamp c,
                          expires_at = isoformat expires\<rparr>]\<rparr>))"

definition verify_session_token :: "database \<Rightarrow> wall_clock \<Rightarrow> string \<Rightarrow> db_error + int option" where
  "verify_session_token db c token =
     (if \<not> openable db then Inl OperationalError
      else if \<not> queryable db then Inr None
      else (case filter (\<lambda>r. session_token r = token
                              \<and> text_less (current_timestamp c) (expires_at r))
                 (user_sessions db) of
              [] \<Rightarrow> Inr None
            | session # _ \<Rightarrow> Inr (Some (user_id session))))"

text \<open>
  The order of two dates and times, field by field, and the number that a text of digits
  denotes.
\<close>

definition dt_less :: "datetime \<Rightarrow> datetime \<Rightarrow> bool" where
  "dt_less a b \<longleftrightarrow>
     year a < year b \<or> (year a = year b \<and>
     (month a < month b \<or> (month a = month b \<and>
     (day a < day b \<or> (day a = day b \<and>
     (hour a < hour b \<or> (hour a = hour b \<and>
     (minute a < minute b \<or> (minute a = minute b \<and>
     (second a < second b \<or> (second a = second b \<and>
      microsecond a < microsecond b)))))))))))"

definition digit_of :: "char \<Rightarrow> nat" where
  "digit_of c = of_char c - 48"

definition dec :: "string \<Rightarrow> nat" where
  "dec xs = foldl (\<lambda>a c. 10 * a + digit_of c) 0 xs"

text \<open>
  Concrete clocks and a concrete table: a machine on UTC, and a machine five and a half
  hours ahead of UTC.
\<close>

definition at_time :: "nat \<Rightarrow> nat \<Rightarrow> nat \<Rightarrow> nat \<Rightarrow> nat \<Rightarrow> nat \<Rightarrow> nat \<Rightarrow> datetime" where
  "at_time y mo d h mi s us =
     \<lparr>year = y, month = mo, day = d, hour = h, minute = mi, second = s, microsecond = us\<rparr>"


definition demo_expiry :: datetime where
  "demo_expiry = at_time 2024 1 8 10 0 0 500000"

definition demo_db :: database where
  "demo_db =
     \<lparr>openable = True, queryable = True,
      user_sessions =
        [\<lparr>user_id = 7, session_token = ''aa'', created_at = ''2023-12-25 09:00:00'',
          expires_at = isoformat (at_time 2024 1 1 9 0 0 0)\<rparr>,
         \<lparr>user_id = 8, session_token = ''bb'', created_at = ''2024-01-01 10:00:00'',
          expires_at = isoformat demo_expiry\<rparr>]\<rparr>"


definition india_issue :: wall_clock where
  "india_issue =
     \<lparr>local_now = at_time 2024 1 1 12 0 0 1, utc_now = at_time 2024 1 1 6 30 0 1\<rparr>"

definition india_later :: wall_clock where
  "india_later =
     \<lparr>local_now = at_time 2024 1 8 13 0 0 0, utc_now = at_time 2024 1 8 7 30 0 0\<rparr>"


section \<open>Substring test\<close>

lemma contains_iff: "contains t s \<longleftrightarrow> (\<exists>ps ss. s = ps @ t @ ss)"
proof (induction s)
  case Nil
  then show ?case by auto
next
  case (Cons c cs)
  show ?case
  proof
    assume "contains t (c # cs)"
    then consider "prefix t (c # cs)" | "contains t cs" by auto
    then show "\<exists>ps ss. c # cs = ps @ t @ ss"
    proof cases
      case 1
      then obtain ss where "c # cs = t @ ss" by (auto simp: prefix_def)
      then have "c # cs = [] @ t @ ss" by simp
      then show ?thesis by blast
    next
      case 2
      with Cons.IH obtain ps ss where "cs = ps @ t @ ss" by blast
      then have "c # cs = (c # ps) @ t @ ss" by simp
      then show ?thesis by blast
    qed
  next
    assume "\<exists>ps ss. c # cs = ps @ t @ ss"
    then obtain ps ss where eq: "c # cs = ps @ t @ ss" by blast
    show "contains t (c # cs)"
    proof (cases ps)
      case Nil
      with eq have "prefix t (c # cs)" by (simp add: prefix_def)
      then show ?thesis by simp
    next
      case (Cons p ps')
      with eq have "cs = ps' @ t @ ss" by simp
      with Cons.IH have "contains t cs" by blast
      then show ?thesis by simp
    qed
  qed
qed

section \<open>The rate-limited caller\<close>

text \<open>
  Claim C4.  When the first call of the wrapped function raises an error whose text
  contains \<open>429\<close>, or \<open>quota\<close> or \<open>rate\<close> in any letter case, the caller
  sleeps 5 seconds and calls the function once more, on the state that the first call and
  the sleep left; the outcome of that second call is the outcome of the whole call: if it
  raises, its error (not the first one) reaches the caller, and if it returns, the result
  is returned and the time of the last call is updated.  An error of any other text
  reaches the caller at once, with the state that the single call left.
\<close>

theorem rate_limited_call_retry_policy:
  assumes "func (throttle s) = (Inl e, s1)"
  shows "(rate_limit_text e \<and> func (sleep 5 s1) = (Inl retry_error, s2) \<longrightarrow>
            rate_limited_call func s = (Inl retry_error, s2))
       \<and> (rate_limit_text e \<and> func (sleep 5 s1) = (Inr result, s2) \<longrightarrow>
            rate_limited_call func s = (Inr result, s2\<lparr>last_api_call := clock s2\<rparr>))
       \<and> (\<not> rate_limit_text e \<longrightarrow> rate_limited_call func s = (Inl e, s1))
       \<and> events (sleep 5 s1) = events s1 @ [Sleep 5] \<and> clock (sleep 5 s1) = clock s1 + 5"
  using assms by (simp add: rate_limited_call_def sleep_def)

theorem rate_limited_call_retry_policy_witness:
  "fst (rate_limited_call failing demo_state) = Inl ''second failure''
   \<and> remote (snd (rate_limited_call failing demo_state)) = 2
   \<and> fst (rate_limited_call (llm_invoke flaky_env ''p'') demo_state) = Inr ''ok''
   \<and> fst (rate_limited_call (llm_invoke broken_env ''p'') demo_state) = Inl ''connection reset''
   \<and> remote (snd (rate_limited_call (llm_invoke broken_env ''p'') demo_state)) = 1"
proof -
  define s1 where "s1 = snd (failing (throttle demo_state))"
  define s2 where "s2 = snd (failing (sleep 5 s1))"
  have a: "failing (throttle demo_state) = (Inl ''HTTP 429 too many requests'', s1)"
    unfolding s1_def by (simp add: failing_def throttle_def demo_state_def init_def)
  have r1: "remote s1 = 1"
    unfolding s1_def by (simp add: failing_def throttle_def demo_state_def init_def)
  have b: "failing (sleep 5 s1) = (Inl ''second failure'', s2)"
    unfolding s2_def using r1 by (simp add: failing_def sleep_def)
  have r2: "remote s2 = 2"
    unfolding s2_def using r1 by (simp add: failing_def sleep_def)
  have c: "rate_limit_text ''HTTP 429 too many requests''" by code_simp
  have first: "rate_limited_call failing demo_state = (Inl ''second failure'', s2)"
    using rate_limited_call_retry_policy [where func = failing and s = demo_state
        and e = "''HTTP 429 too many requests''" and ?s1.0 = s1
        and retry_error = "''second failure''" and ?s2.0 = s2] a b c by simp
  define t1 where "t1 = snd (llm_invoke flaky_env ''p'' (throttle demo_state))"
  define t2 where "t2 = snd (llm_invoke flaky_env ''p'' (sleep 5 t1))"
  have d: "llm_invoke flaky_env ''p'' (throttle demo_state) = (Inl ''Rate limit hit'', t1)"
    unfolding t1_def by (simp add: llm_invoke_def flaky_env_def demo_env_def throttle_def demo_state_def init_def)
  have rt1: "remote t1 = 1"
    unfolding t1_def by (simp add: llm_invoke_def flaky_env_def demo_env_def throttle_def demo_state_def init_def)
  have e: "llm_invoke flaky_env ''p'' (sleep 5 t1) = (Inr ''ok'', t2)"
    unfolding t2_def using rt1 by (simp add: llm_invoke_def flaky_env_def demo_env_def sleep_def)
  have f: "rate_limit_text ''Rate limit hit''" by code_simp
  have second: "rate_limited_call (llm_invoke flaky_env ''p'') demo_state = (Inr ''ok'', t2\<lparr>last_api_call := clock t2\<rparr>)"
    using rate_limited_call_retry_policy [where func = "llm_invoke flaky_env ''p''"
        and s = demo_state and e = "''Rate limit hit''" and ?s1.0 = t1
        and result = "''ok''" and ?s2.0 = t2] d e f by simp
  define u1 where "u1 = snd (llm_invoke broken_env ''p'' (throttle demo_state))"
  have g: "llm_invoke broken_env ''p'' (throttle demo_state) = (Inl ''connection reset'', u1)"
    unfolding u1_def by (simp add: llm_invoke_def broken_env_def demo_env_def throttle_def demo_state_def init_def)
  have ru1: "remote u1 = 1"
    unfolding u1_def by (simp add: llm_invoke_def broken_env_def demo_env_def throttle_def demo_state_def init_def)
  have h: "\<not> rate_limit_text ''connection reset''" by code_simp
  have third: "rate_limited_call (llm_invoke broken_env ''p'') demo_state = (Inl ''connection reset'', u1)"
    using rate_limited_call_retry_policy [where func = "llm_invoke broken_env ''p''"
        and s = demo_state and e = "''connection reset''" and ?s1.0 = u1] g h by simp
  show ?thesis using first second third r2 ru1 by simp
qed

section \<open>What a call of the remote model leaves behind\<close>

lemma throttle_events:
  "\<exists>evs. events (throttle s) = events s @ evs \<and> list_all (quiet p) evs"
  by (simp add: throttle_def sleep_def Let_def)

lemma throttle_keeps [simp]:
  "memory (throttle s) = memory s" "knowledge_base (throttle s) = knowledge_base s"
  by (simp_all add: throttle_def sleep_def Let_def)

lemma sleep_keeps [simp]:
  "memory (sleep d s) = memory s" "knowledge_base (sleep d s) = knowledge_base s"
  "events (sleep d s) = events s @ [Sleep d]"
  by (simp_all add: sleep_def)

lemma llm_invoke_keeps [simp]:
  "memory (snd (llm_invoke E p s)) = memory s"
  "knowledge_base (snd (llm_invoke E p s)) = knowledge_base s"
  "events (snd (llm_invoke E p s)) = events s @ [LlmInvoke p]"
  by (simp_all add: llm_invoke_def split: prod.splits)

lemma rate_limited_call_cases:
  "snd (rate_limited_call func s) = (let s1 = snd (func (throttle s)) in s1\<lparr>last_api_call := clock s1\<rparr>)
   \<or> snd (rate_limited_call func s) = snd (func (throttle s))
   \<or> snd (rate_limited_call func s) = (let s2 = snd (func (sleep 5 (snd (func (throttle s))))) in s2\<lparr>last_api_call := clock s2\<rparr>)
   \<or> snd (rate_limited_call func s) = snd (func (sleep 5 (snd (func (throttle s)))))"
  by (auto simp: rate_limited_call_def Let_def split: prod.splits sum.splits)

lemma rlc_llm_memory: "memory (snd (rate_limited_call (llm_invoke E p) s)) = memory s"
  using rate_limited_call_cases [of "llm_invoke E p" s] by (auto simp: Let_def)

lemma rlc_llm_events:
  "\<exists>evs. events (snd (rate_limited_call (llm_invoke E p) s)) = events s @ evs
         \<and> list_all (quiet p) evs \<and> LlmInvoke p \<in> set evs"
proof -
  obtain tv where tv: "events (throttle s) = events s @ tv" "list_all (quiet p) tv"
    using throttle_events by blast
  let ?one = "tv @ [LlmInvoke p]"
  let ?two = "tv @ [LlmInvoke p, Sleep 5, LlmInvoke p]"
  have "events (snd (rate_limited_call (llm_invoke E p) s)) = events s @ ?one
      \<or> events (snd (rate_limited_call (llm_invoke E p) s)) = events s @ ?two"
    using rate_limited_call_cases [of "llm_invoke E p" s] tv(1) by (auto simp: Let_def)
  moreover have "list_all (quiet p) ?one \<and> LlmInvoke p \<in> set ?one" using tv(2) by simp
  moreover have "list_all (quiet p) ?two \<and> LlmInvoke p \<in> set ?two" using tv(2) by simp
  ultimately show ?thesis by blast
qed

lemma prompts_differ: "code_prompt q \<noteq> roadmap_prompt q'"
  by (simp add: code_prompt_def roadmap_prompt_def)

lemma tools_5: "tools E ! 5 = \<lparr>tool_name = ''Roadmap Generator'', tool_func = generate_roadmap E\<rparr>"
  by (simp add: tools_def)
lemma tools_6: "tools E ! 6 = \<lparr>tool_name = ''Code Helper'', tool_func = code_helper E\<rparr>"
  by (simp add: tools_def)

lemma generate_roadmap_Inr: "\<exists>r. fst (generate_roadmap E q s) = Inr r"
  by (simp add: generate_roadmap_def split: prod.splits sum.splits)
lemma code_helper_Inr: "\<exists>r. fst (code_helper E q s) = Inr r"
  by (simp add: code_helper_def split: prod.splits sum.splits)

lemma generate_roadmap_state: "snd (generate_roadmap E q s) = snd (rate_limited_call (llm_invoke E (roadmap_prompt q)) s)"
  by (simp add: generate_roadmap_def split: prod.splits sum.splits)
lemma code_helper_state: "snd (code_helper E q s) = snd (rate_limited_call (llm_invoke E (code_prompt q)) s)"
  by (simp add: code_helper_def split: prod.splits sum.splits)

section \<open>The router\<close>

lemma generate_response_roadmap:
  assumes "any_in roadmap_triggers (lower message)"
  shows "generate_response E message s = generate_roadmap E message s"
proof -
  obtain r s' where "generate_roadmap E message s = (Inr r, s')"
    using generate_roadmap_Inr [of E message s] by (cases "generate_roadmap E message s") auto
  then show ?thesis
    using assms by (simp add: generate_response_def generate_response_try_def tools_5)
qed

lemma generate_response_code:
  assumes "\<not> any_in roadmap_triggers (lower message)" "any_in code_triggers (lower message)"
  shows "generate_response E message s = code_helper E message s"
proof -
  obtain r s' where "code_helper E message s = (Inr r, s')"
    using code_helper_Inr [of E message s] by (cases "code_helper E message s") auto
  then show ?thesis
    using assms by (simp add: generate_response_def generate_response_try_def tools_6)
qed

text \<open>
  Claim C1.  When the lower-cased message contains one of the roadmap triggers,
  \<open>generate_response\<close> is the call of the sixth tool, the Roadmap Generator, on the raw
  message, and returns what that tool returns.  The events of the call are sleeps and calls
  of the remote model with the roadmap prompt built from the raw message, at least one such
  call, and no run of the general agent.  The test looks at the lower-cased message only:
  a message that differs from it in letter case alone is routed in the same way.
\<close>

theorem roadmap_trigger_invokes_roadmap_generator:
  assumes "any_in roadmap_triggers (lower message)"
  shows "generate_response E message s = tool_func (tools E ! 5) message s
       \<and> tool_name (tools E ! 5) = ''Roadmap Generator''
       \<and> tool_func (tools E ! 5) = generate_roadmap E
       \<and> (\<exists>evs. events (snd (generate_response E message s)) = events s @ evs
               \<and> list_all (quiet (roadmap_prompt message)) evs
               \<and> LlmInvoke (roadmap_prompt message) \<in> set evs
               \<and> (\<forall>m. AgentRun m \<notin> set evs))
       \<and> (lower message' = lower message \<longrightarrow>
            generate_response E message' s = generate_roadmap E message' s)"
proof -
  have eq: "generate_response E message s = generate_roadmap E message s"
    using assms by (rule generate_response_roadmap)
  obtain evs where evs: "events (snd (generate_roadmap E message s)) = events s @ evs"
      "list_all (quiet (roadmap_prompt message)) evs" "LlmInvoke (roadmap_prompt message) \<in> set evs"
    using rlc_llm_events [of E "roadmap_prompt message" s] by (auto simp: generate_roadmap_state)
  have "\<forall>m. AgentRun m \<notin> set evs"
    using evs(2) by (auto simp: list_all_iff)
  with evs eq have "\<exists>evs. events (snd (generate_response E message s)) = events s @ evs
               \<and> list_all (quiet (roadmap_prompt message)) evs
               \<and> LlmInvoke (roadmap_prompt message) \<in> set evs
               \<and> (\<forall>m. AgentRun m \<notin> set evs)" by auto
  moreover have "lower message' = lower message \<longrightarrow>
            generate_response E message' s = generate_roadmap E message' s"
    using assms generate_response_roadmap [of message' E s] by auto
  ultimately show ?thesis using eq by (simp add: tools_5)
qed

theorem roadmap_trigger_invokes_roadmap_generator_witness:
  "any_in roadmap_triggers (lower ''ROADMAP please'')
   \<and> any_in roadmap_triggers (lower ''roadmap please'')
   \<and> generate_response demo_env ''ROADMAP please'' demo_state
       = generate_roadmap demo_env ''ROADMAP please'' demo_state
   \<and> generate_response demo_env ''roadmap please'' demo_state
       = generate_roadmap demo_env ''roadmap please'' demo_state
   \<and> fst (generate_response demo_env ''ROADMAP please'' demo_state) = Inr ''ok''"
proof -
  have a: "any_in roadmap_triggers (lower ''ROADMAP please'')" by code_simp
  have b: "lower ''roadmap please'' = lower ''ROADMAP please''" by code_simp
  have c: "fst (generate_roadmap demo_env ''ROADMAP please'' demo_state) = Inr ''ok''"
    by (simp add: generate_roadmap_def rate_limited_call_def llm_invoke_def demo_env_def
        split: prod.splits)
  show ?thesis
    using roadmap_trigger_invokes_roadmap_generator [OF a, of demo_env demo_state "''roadmap please''"]
      a b c by (simp add: tools_5)
qed

text \<open>
  Claim C2.  When the lower-cased message contains a code trigger and no roadmap trigger,
  \<open>generate_response\<close> is the call of the seventh tool, the Code Helper, on the raw
  message, and returns what that tool returns.  The events of the call are sleeps and calls
  of the remote model with the code prompt, at least one such call: the roadmap prompt is
  never sent and the general agent is never run.
\<close>

theorem code_trigger_invokes_code_helper:
  assumes "\<not> any_in roadmap_triggers (lower message)"
      and "any_in code_triggers (lower message)"
  shows "generate_response E message s = tool_func (tools E ! 6) message s
       \<and> tool_name (tools E ! 6) = ''Code Helper''
       \<and> tool_func (tools E ! 6) = code_helper E
       \<and> (\<exists>evs. events (snd (generate_response E message s)) = events s @ evs
               \<and> list_all (quiet (code_prompt message)) evs
               \<and> LlmInvoke (code_prompt message) \<in> set evs
               \<and> (\<forall>q. LlmInvoke (roadmap_prompt q) \<notin> set evs)
               \<and> (\<forall>m. AgentRun m \<notin> set evs))"
proof -
  have eq: "generate_response E message s = code_helper E message s"
    using assms by (rule generate_response_code)
  obtain evs where evs: "events (snd (code_helper E message s)) = events s @ evs"
      "list_all (quiet (code_prompt message)) evs" "LlmInvoke (code_prompt message) \<in> set evs"
    using rlc_llm_events [of E "code_prompt message" s] by (auto simp: code_helper_state)
  have "\<forall>m. AgentRun m \<notin> set evs"
    using evs(2) by (auto simp: list_all_iff)
  moreover have "\<forall>q. LlmInvoke (roadmap_prompt q) \<notin> set evs"
  proof (intro allI notI)
    fix q
    assume "LlmInvoke (roadmap_prompt q) \<in> set evs"
    with evs(2) have "quiet (code_prompt message) (LlmInvoke (roadmap_prompt q))"
      unfolding list_all_iff by blast
    then show False using prompts_differ [of message q] by simp
  qed
  ultimately have "\<exists>evs. events (snd (generate_response E message s)) = events s @ evs
               \<and> list_all (quiet (code_prompt message)) evs
               \<and> LlmInvoke (code_prompt message) \<in> set evs
               \<and> (\<forall>q. LlmInvoke (roadmap_prompt q) \<notin> set evs)
               \<and> (\<forall>m. AgentRun m \<notin> set evs)"
    using evs eq by auto
  then show ?thesis using eq by (simp add: tools_6)
qed

theorem code_trigger_invokes_code_helper_witness:
  "\<not> any_in roadmap_triggers (lower ''Write a Java function'')
   \<and> any_in code_triggers (lower ''Write a Java function'')
   \<and> generate_response demo_env ''Write a Java function'' demo_state
       = code_helper demo_env ''Write a Java function'' demo_state
   \<and> fst (generate_response demo_env ''Write a Java function'' demo_state) = Inr ''ok''"
proof -
  have a: "\<not> any_in roadmap_triggers (lower ''Write a Java function'')" by code_simp
  have b: "any_in code_triggers (lower ''Write a Java function'')" by code_simp
  have c: "fst (code_helper demo_env ''Write a Java function'' demo_state) = Inr ''ok''"
    by (simp add: code_helper_def rate_limited_call_def llm_invoke_def demo_env_def
        split: prod.splits)
  show ?thesis
    using code_trigger_invokes_code_helper [OF a b, of demo_env demo_state] a b c
    by (simp add: tools_6)
qed

text \<open>
  Claim C7.  \<open>generate_response\<close> returns a string for every message, environment and
  state: no exception reaches the caller.  When no trigger matches and the rate-limited run
  of the general agent raises, the returned string is one fixed message if the error text
  is a quota or rate-limit text and another fixed message otherwise, and the two messages
  differ.  When that run returns, its response is returned.
\<close>

theorem generate_response_total:
  "(\<exists>response. fst (generate_response E message s) = Inr response)
   \<and> (\<not> any_in roadmap_triggers (lower message) \<and> \<not> any_in code_triggers (lower message)
        \<and> rate_limited_call (agent_run E message) s = (Inl e, s') \<longrightarrow>
        generate_response E message s =
          (Inr (if rate_limit_text e then ''I'm currently facing issue''
                else ''I am currently facing issue''), s'))
   \<and> (\<not> any_in roadmap_triggers (lower message) \<and> \<not> any_in code_triggers (lower message)
        \<and> rate_limited_call (agent_run E message) s = (Inr response, s') \<longrightarrow>
        generate_response E message s = (Inr response, s'))
   \<and> ''I'm currently facing issue'' \<noteq> ''I am currently facing issue''"
proof -
  have "\<exists>response. fst (generate_response E message s) = Inr response"
    by (simp add: generate_response_def split: prod.splits sum.splits)
  then show ?thesis
    by (simp add: generate_response_def generate_response_try_def)
qed

theorem generate_response_total_witness:
  "generate_response quota_env ''hello'' demo_state
     = (Inr ''I'm currently facing issue'', snd (rate_limited_call (agent_run quota_env ''hello'') demo_state))
   \<and> generate_response broken_env ''hello'' demo_state
     = (Inr ''I am currently facing issue'', snd (rate_limited_call (agent_run broken_env ''hello'') demo_state))
   \<and> generate_response demo_env ''hello'' demo_state
     = (Inr ''hi'', snd (rate_limited_call (agent_run demo_env ''hello'') demo_state))"
proof -
  have a: "\<not> any_in roadmap_triggers (lower ''hello'')" by code_simp
  have b: "\<not> any_in code_triggers (lower ''hello'')" by code_simp
  have q: "rate_limit_text ''Quota exceeded''" by code_simp
  have r: "\<not> rate_limit_text ''connection reset''" by code_simp
  have c1: "fst (rate_limited_call (agent_run quota_env ''hello'') demo_state) = Inl ''Quota exceeded''"
    using q by (simp add: rate_limited_call_def agent_run_def quota_env_def demo_env_def)
  have c2: "fst (rate_limited_call (agent_run broken_env ''hello'') demo_state) = Inl ''connection reset''"
    using r by (simp add: rate_limited_call_def agent_run_def broken_env_def demo_env_def)
  have c3: "fst (rate_limited_call (agent_run demo_env ''hello'') demo_state) = Inr ''hi''"
    by (simp add: rate_limited_call_def agent_run_def demo_env_def)
  have d1: "rate_limited_call (agent_run quota_env ''hello'') demo_state
      = (Inl ''Quota exceeded'', snd (rate_limited_call (agent_run quota_env ''hello'') demo_state))"
    using c1 by (metis prod.collapse)
  have d2: "rate_limited_call (agent_run broken_env ''hello'') demo_state
      = (Inl ''connection reset'', snd (rate_limited_call (agent_run broken_env ''hello'') demo_state))"
    using c2 by (metis prod.collapse)
  have d3: "rate_limited_call (agent_run demo_env ''hello'') demo_state
      = (Inr ''hi'', snd (rate_limited_call (agent_run demo_env ''hello'') demo_state))"
    using c3 by (metis prod.collapse)
  have e1: "generate_response quota_env ''hello'' demo_state
     = (Inr ''I'm currently facing issue'', snd (rate_limited_call (agent_run quota_env ''hello'') demo_state))"
    using generate_response_total [where E = quota_env and message = "''hello''" and s = demo_state
        and e = "''Quota exceeded''" and s' = "snd (rate_limited_call (agent_run quota_env ''hello'') demo_state)"]
      a b q d1 by (simp del: One_nat_def)
  have e2: "generate_response broken_env ''hello'' demo_state
     = (Inr ''I am currently facing issue'', snd (rate_limited_call (agent_run broken_env ''hello'') demo_state))"
    using generate_response_total [where E = broken_env and message = "''hello''" and s = demo_state
        and e = "''connection reset''" and s' = "snd (rate_limited_call (agent_run broken_env ''hello'') demo_state)"]
      a b r d2 by simp
  have e3: "generate_response demo_env ''hello'' demo_state
     = (Inr ''hi'', snd (rate_limited_call (agent_run demo_env ''hello'') demo_state))"
    using generate_response_total [where E = demo_env and message = "''hello''" and s = demo_state
        and response = "''hi''" and s' = "snd (rate_limited_call (agent_run demo_env ''hello'') demo_state)"]
      a b d3 by simp
  show ?thesis using e1 e2 e3 by blast
qed

section \<open>The conversation memory\<close>

lemma generate_response_state:
  "snd (generate_response E message s) = snd (generate_response_try E message s)"
  by (simp add: generate_response_def split: prod.splits sum.splits)

lemma rlc_agent_memory:
  assumes "\<And>t. memory (snd (agent E message t)) = memory t"
  shows "memory (snd (rate_limited_call (agent_run E message) s)) = memory s"
proof -
  have run: "memory (snd (agent_run E message t)) = memory t" for t
    using assms [of "t\<lparr>events := events t @ [AgentRun message]\<rparr>"] by (simp add: agent_run_def)
  show ?thesis
    using rate_limited_call_cases [of "agent_run E message" s] by (auto simp: Let_def run)
qed

lemma trigger_paths_memory:
  assumes "any_in roadmap_triggers (lower message) \<or> any_in code_triggers (lower message)"
  shows "memory (snd (generate_response E message s)) = memory s"
proof (cases "any_in roadmap_triggers (lower message)")
  case True
  then show ?thesis
    by (simp add: generate_response_roadmap generate_roadmap_state rlc_llm_memory)
next
  case False
  with assms have "any_in code_triggers (lower message)" by simp
  with False show ?thesis
    by (simp add: generate_response_code code_helper_state rlc_llm_memory)
qed

text \<open>
  Claim C3, as stated, fails: the specification says that after every call of
  \<open>generate_response\<close> the new turn has been appended to the conversation memory and
  the memory pruned to its last \<open>K\<close> turns.  On the roadmap path the call
  \<open>generate_response "roadmap please"\<close> returns the reply \<open>ok\<close> of the remote model
  and leaves the memory empty, which is not the memory with the turn appended.
\<close>

theorem memory_untouched_on_roadmap_path:
  "fst (generate_response demo_env ''roadmap please'' demo_state) = Inr ''ok''
   \<and> chat_history (memory (snd (generate_response demo_env ''roadmap please'' demo_state))) = []
   \<and> chat_history (memory (snd (generate_response demo_env ''roadmap please'' demo_state)))
       \<noteq> spec_append_and_prune (k (memory demo_state)) (chat_history (memory demo_state))
            ''roadmap please'' ''ok''"
proof -
  have a: "any_in roadmap_triggers (lower ''roadmap please'')" by code_simp
  have b: "fst (generate_roadmap demo_env ''roadmap please'' demo_state) = Inr ''ok''"
    by (simp add: generate_roadmap_def rate_limited_call_def llm_invoke_def demo_env_def
        split: prod.splits)
  have c: "memory (snd (generate_response demo_env ''roadmap please'' demo_state)) = memory demo_state"
    using a by (simp add: trigger_paths_memory)
  have d: "chat_history (memory demo_state) = []" "k (memory demo_state) = 10"
    by (simp_all add: demo_state_def init_def setup_memory_def)
  show ?thesis
    using a b c d by (simp add: generate_response_roadmap spec_append_and_prune_def)
qed

text \<open>
  Claim C3, amended.  \<open>generate_response\<close> never writes the conversation memory
  itself.  On the roadmap and code trigger paths the memory is left as it was.  On the
  general delegation path, error paths included, the memory is what the rate-limited run
  of the general agent leaves, so it changes only if the agent, which was built with the
  memory, changes it.
\<close>

theorem generate_response_memory:
  "(any_in roadmap_triggers (lower message) \<or> any_in code_triggers (lower message) \<longrightarrow>
      memory (snd (generate_response E message s)) = memory s)
   \<and> (\<not> any_in roadmap_triggers (lower message) \<and> \<not> any_in code_triggers (lower message) \<longrightarrow>
      memory (snd (generate_response E message s))
        = memory (snd (rate_limited_call (agent_run E message) s)))
   \<and> ((\<forall>t. memory (snd (agent E message t)) = memory t) \<longrightarrow>
      memory (snd (generate_response E message s)) = memory s)"
proof (intro conjI impI)
  assume "any_in roadmap_triggers (lower message) \<or> any_in code_triggers (lower message)"
  then show "memory (snd (generate_response E message s)) = memory s"
    by (rule trigger_paths_memory)
next
  assume "\<not> any_in roadmap_triggers (lower message) \<and> \<not> any_in code_triggers (lower message)"
  then show "memory (snd (generate_response E message s))
        = memory (snd (rate_limited_call (agent_run E message) s))"
    by (simp add: generate_response_state generate_response_try_def)
next
  assume keep: "\<forall>t. memory (snd (agent E message t)) = memory t"
  show "memory (snd (generate_response E message s)) = memory s"
  proof (cases "any_in roadmap_triggers (lower message) \<or> any_in code_triggers (lower message)")
    case True
    then show ?thesis by (rule trigger_paths_memory)
  next
    case False
    then have "memory (snd (generate_response E message s))
        = memory (snd (rate_limited_call (agent_run E message) s))"
      by (simp add: generate_response_state generate_response_try_def)
    also have "\<dots> = memory s" using keep by (simp add: rlc_agent_memory)
    finally show ?thesis .
  qed
qed

theorem generate_response_memory_witness:
  "memory (snd (generate_response demo_env ''roadmap please'' demo_state)) = memory demo_state
   \<and> memory (snd (generate_response demo_env ''Write a Java function'' demo_state)) = memory demo_state
   \<and> memory (snd (generate_response quota_env ''hello'' demo_state)) = memory demo_state
   \<and> memory (snd (generate_response demo_env ''hello'' demo_state))
        = memory (snd (rate_limited_call (agent_run demo_env ''hello'') demo_state))"
proof -
  have a: "any_in roadmap_triggers (lower ''roadmap please'')" by code_simp
  have b: "any_in code_triggers (lower ''Write a Java function'')" by code_simp
  have c: "\<not> any_in roadmap_triggers (lower ''hello'')" "\<not> any_in code_triggers (lower ''hello'')"
    by code_simp+
  have d: "\<forall>t. memory (snd (agent quota_env ''hello'' t)) = memory t"
    by (simp add: quota_env_def demo_env_def)
  have e1: "memory (snd (generate_response demo_env ''roadmap please'' demo_state)) = memory demo_state"
    using generate_response_memory [of "''roadmap please''" demo_env demo_state] a by blast
  have e2: "memory (snd (generate_response demo_env ''Write a Java function'' demo_state)) = memory demo_state"
    using generate_response_memory [of "''Write a Java function''" demo_env demo_state] b by blast
  have e3: "memory (snd (generate_response quota_env ''hello'' demo_state)) = memory demo_state"
    using generate_response_memory [of "''hello''" quota_env demo_state] d by blast
  have e4: "memory (snd (generate_response demo_env ''hello'' demo_state))
        = memory (snd (rate_limited_call (agent_run demo_env ''hello'') demo_state))"
    using generate_response_memory [of "''hello''" demo_env demo_state] c by blast
  show ?thesis using e1 e2 e3 e4 by blast
qed

section \<open>The knowledge base\<close>

lemma add_facts_knowledge_base:
  "knowledge_base (add_facts fs s) = knowledge_base s @ fs"
  by (induction fs arbitrary: s) (simp_all add: add_to_knowledge_def)

lemma str_nat_digits:
  "str_nat (Suc 0) = ''1''" "str_nat (Suc (Suc 0)) = ''2''"
  "str_nat (Suc (Suc (Suc 0))) = ''3''" "str_nat (Suc (Suc (Suc (Suc 0)))) = ''4''"
  "str_nat (Suc (Suc (Suc (Suc (Suc 0))))) = ''5''"
  by code_simp+

lemma numbered_nth:
  assumes "i < length xs"
  shows "numbered xs ! i = str_nat (Suc i) @ ''. '' @ xs ! i"
  using assms by (simp add: numbered_def nth_enumerate_eq)

lemma length_numbered: "length (numbered xs) = length xs"
  by (simp add: numbered_def)

text \<open>
  Claim C8.  On a non-empty knowledge base \<open>knowledge_search\<close> does not depend on the
  query: it returns the last five facts (all of them when there are fewer than five), in
  the order in which they were added, one per line, the line at position \<open>i\<close> (counted
  from 0) being \<open>i + 1\<close>, a full stop, a space and the fact.  With the seven facts
  \<open>F1, \<dots>, F7\<close> the result is \<open>F3, \<dots>, F7\<close> numbered 1 to 5.
\<close>

theorem knowledge_search_last_five:
  assumes "knowledge_base s \<noteq> []"
  shows "knowledge_search query s = join_lines (numbered (last5 (knowledge_base s)))
       \<and> knowledge_search query s = knowledge_search query' s
       \<and> length (last5 (knowledge_base s)) = min 5 (length (knowledge_base s))
       \<and> (\<exists>older. knowledge_base s = older @ last5 (knowledge_base s))
       \<and> length (numbered (last5 (knowledge_base s))) = length (last5 (knowledge_base s))
       \<and> (\<forall>i < length (last5 (knowledge_base s)).
             numbered (last5 (knowledge_base s)) ! i
               = str_nat (Suc i) @ ''. '' @ last5 (knowledge_base s) ! i)
       \<and> (knowledge_base s = [F1, F2, F3, F4, F5, F6, F7] \<longrightarrow>
             knowledge_search query s =
               ''1. '' @ F3 @ [CHR 0x0A] @ ''2. '' @ F4 @ [CHR 0x0A] @ ''3. '' @ F5 @
               [CHR 0x0A] @ ''4. '' @ F6 @ [CHR 0x0A] @ ''5. '' @ F7)"
proof -
  have a: "knowledge_search query s = join_lines (numbered (last5 (knowledge_base s)))"
    "knowledge_search query s = knowledge_search query' s"
    using assms by (simp_all add: knowledge_search_def)
  have b: "length (last5 (knowledge_base s)) = min 5 (length (knowledge_base s))"
    by (simp add: last5_def)
  have c: "\<exists>older. knowledge_base s = older @ last5 (knowledge_base s)"
    unfolding last5_def by (metis append_take_drop_id)
  have d: "\<forall>i < length (last5 (knowledge_base s)).
             numbered (last5 (knowledge_base s)) ! i
               = str_nat (Suc i) @ ''. '' @ last5 (knowledge_base s) ! i"
    by (simp add: numbered_nth)
  have e: "knowledge_base s = [F1, F2, F3, F4, F5, F6, F7] \<longrightarrow>
             knowledge_search query s =
               ''1. '' @ F3 @ [CHR 0x0A] @ ''2. '' @ F4 @ [CHR 0x0A] @ ''3. '' @ F5 @
               [CHR 0x0A] @ ''4. '' @ F6 @ [CHR 0x0A] @ ''5. '' @ F7"
    by (simp add: knowledge_search_def last5_def numbered_def str_nat_digits)
  show ?thesis using a b c d e length_numbered by blast
qed

theorem knowledge_search_last_five_witness:
  "knowledge_search ''anything''
     (add_facts [''F1'', ''F2'', ''F3'', ''F4'', ''F5'', ''F6'', ''F7''] demo_state)
   = ''1. F3'' @ [CHR 0x0A] @ ''2. F4'' @ [CHR 0x0A] @ ''3. F5'' @ [CHR 0x0A] @ ''4. F6'' @
     [CHR 0x0A] @ ''5. F7''
   \<and> knowledge_search ''anything''
        (add_facts [''F1'', ''F2'', ''F3'', ''F4'', ''F5'', ''F6'', ''F7''] demo_state)
     = knowledge_search ''something else''
        (add_facts [''F1'', ''F2'', ''F3'', ''F4'', ''F5'', ''F6'', ''F7''] demo_state)"
proof -
  define t where "t = add_facts [''F1'', ''F2'', ''F3'', ''F4'', ''F5'', ''F6'', ''F7''] demo_state"
  have kb: "knowledge_base t = [''F1'', ''F2'', ''F3'', ''F4'', ''F5'', ''F6'', ''F7'']"
    unfolding t_def by (simp only: add_facts_knowledge_base) (simp add: demo_state_def init_def)
  then have ne: "knowledge_base t \<noteq> []" by simp
  note th = knowledge_search_last_five [OF ne, of "''anything''" "''something else''"
        "''F1''" "''F2''" "''F3''" "''F4''" "''F5''" "''F6''" "''F7''"]
  have e1: "knowledge_search ''anything'' t = knowledge_search ''something else'' t"
    using th by blast
  have e2: "knowledge_search ''anything'' t =
               ''1. '' @ ''F3'' @ [CHR 0x0A] @ ''2. '' @ ''F4'' @ [CHR 0x0A] @ ''3. '' @ ''F5'' @
               [CHR 0x0A] @ ''4. '' @ ''F6'' @ [CHR 0x0A] @ ''5. '' @ ''F7''"
    using th kb by blast
  have "knowledge_search ''anything'' t
          = ''1. F3'' @ [CHR 0x0A] @ ''2. F4'' @ [CHR 0x0A] @ ''3. F5'' @ [CHR 0x0A] @ ''4. F6'' @
            [CHR 0x0A] @ ''5. F7''
      \<and> knowledge_search ''anything'' t = knowledge_search ''something else'' t"
    using e1 by (simp add: e2)
  then show ?thesis unfolding t_def .
qed

text \<open>
  Claim C10.  On an empty knowledge base \<open>knowledge_search\<close> returns the fixed string
  \<open>No knowledge available yet.\<close> for every query.
\<close>

theorem knowledge_search_empty:
  assumes "knowledge_base s = []"
  shows "knowledge_search query s = ''No knowledge available yet.''"
  using assms by (simp add: knowledge_search_def)

theorem knowledge_search_empty_witness:
  "knowledge_base demo_state = []
   \<and> knowledge_search ''what do you know'' demo_state = ''No knowledge available yet.''"
proof -
  have e: "knowledge_base demo_state = []" by (simp add: demo_state_def init_def)
  show ?thesis using knowledge_search_empty [OF e, of "''what do you know''"] e by simp
qed

section \<open>The Calculator\<close>

lemma cleaned_query_chars:
  "set (cleaned_query query) \<subseteq> set ''0123456789+-*/(). ''"
  unfolding cleaned_query_def by (rule subsetI) (simp del: set_simps list.set)

lemma cleaned_query_subseq: "subseq (cleaned_query query) query"
  by (simp add: cleaned_query_def)

text \<open>
  Claim C6.  \<open>calculator\<close> keeps exactly the characters of the query that are digits,
  \<open>+ - * / ( ) .\<close> or a space, in their order, and evaluates the rest: when the
  evaluation yields a value its text is returned, and when it raises, whatever the error,
  the fixed failure string is returned, so nothing is raised to the caller.  Whatever the
  interpreter does outside the integer fragment, \<open>2+2\<close> gives \<open>4\<close>, \<open>2+\<close> gives
  the failure string, and \<open>DROP TABLE;1+1\<close> is cleaned to \<open> 1+1\<close> (the space of the
  query is kept) and gives \<open>2\<close>.
\<close>

theorem calculator_sanitizes_and_never_raises:
  "cleaned_query query = filter (\<lambda>c. c \<in> set ''0123456789+-*/(). '') query
   \<and> set (cleaned_query query) \<subseteq> set ''0123456789+-*/(). ''
   \<and> subseq (cleaned_query query) query
   \<and> (eval_str other (cleaned_query query) = Inr result \<longrightarrow> calculator other query = result)
   \<and> (eval_str other (cleaned_query query) = Inl e \<longrightarrow>
        calculator other query =
          ''I couldn't calculate that expression. Please provide a valid mathematical expression.'')
   \<and> calculator other ''2+2'' = ''4''
   \<and> calculator other ''2+'' =
        ''I couldn't calculate that expression. Please provide a valid mathematical expression.''
   \<and> cleaned_query ''DROP TABLE;1+1'' = '' 1+1''
   \<and> calculator other ''DROP TABLE;1+1'' = ''2''"
proof -
  have a: "calculator other ''2+2'' = ''4''" by code_simp
  have b: "calculator other ''2+'' =
        ''I couldn't calculate that expression. Please provide a valid mathematical expression.''"
    by code_simp
  have c: "cleaned_query ''DROP TABLE;1+1'' = '' 1+1''" by code_simp
  have d: "calculator other ''DROP TABLE;1+1'' = ''2''" by code_simp
  have e: "eval_str other (cleaned_query query) = Inr result \<longrightarrow> calculator other query = result"
    by (simp add: calculator_def)
  have f: "eval_str other (cleaned_query query) = Inl e \<longrightarrow>
        calculator other query =
          ''I couldn't calculate that expression. Please provide a valid mathematical expression.''"
    by (simp add: calculator_def)
  have g: "cleaned_query query = filter (\<lambda>c. c \<in> set ''0123456789+-*/(). '') query"
    by (simp only: cleaned_query_def)
  show ?thesis
    using a b c d e f g cleaned_query_chars cleaned_query_subseq by blast
qed

theorem calculator_sanitizes_and_never_raises_witness:
  "eval_str (interpreter demo_env) (cleaned_query ''what is 6*7?'') = Inr ''42''
   \<and> calculator (interpreter demo_env) ''what is 6*7?'' = ''42''
   \<and> eval_str (interpreter demo_env) (cleaned_query ''1//0'') = Inl ZeroDivisionError
   \<and> calculator (interpreter demo_env) ''1//0'' =
        ''I couldn't calculate that expression. Please provide a valid mathematical expression.''"
proof -
  have a: "eval_str (interpreter demo_env) (cleaned_query ''what is 6*7?'') = Inr ''42''" by code_simp
  have b: "eval_str (interpreter demo_env) (cleaned_query ''1//0'') = Inl ZeroDivisionError" by code_simp
  have c: "calculator (interpreter demo_env) ''what is 6*7?'' = ''42''"
    using calculator_sanitizes_and_never_raises
      [of "''what is 6*7?''" "interpreter demo_env" "''42''"] a by blast
  have d: "calculator (interpreter demo_env) ''1//0'' =
        ''I couldn't calculate that expression. Please provide a valid mathematical expression.''"
    using calculator_sanitizes_and_never_raises
      [of "''1//0''" "interpreter demo_env" _ ZeroDivisionError] b by blast
  show ?thesis using a b c d by blast
qed

section \<open>Decimal texts and their order\<close>

lemma digit_char:
  assumes "d < 10"
  shows "is_digit (char_of (48 + d))" "digit_of (char_of (48 + d)) = d"
  using assms by (simp_all add: is_digit_def digit_of_def)

lemma str_nat_all_digits: "list_all is_digit (str_nat n)"
proof (induction n rule: str_nat.induct)
  case (1 n)
  show ?case
  proof (cases "n < 10")
    case True
    then show ?thesis by (subst str_nat.simps) (simp add: digit_char)
  next
    case False
    have "n mod 10 < 10" by simp
    then have "is_digit (char_of (48 + n mod 10))" by (rule digit_char)
    with False 1 show ?thesis by (subst str_nat.simps) simp
  qed
qed

lemma dec_snoc: "dec (xs @ [c]) = 10 * dec xs + digit_of c"
  by (simp add: dec_def)

lemma dec_str_nat: "dec (str_nat n) = n"
proof (induction n rule: str_nat.induct)
  case (1 n)
  show ?case
  proof (cases "n < 10")
    case True
    then show ?thesis by (subst str_nat.simps) (simp add: dec_def digit_char)
  next
    case False
    have "n mod 10 < 10" by simp
    then have "digit_of (char_of (48 + n mod 10)) = n mod 10" by (rule digit_char)
    with False 1 show ?thesis by (subst str_nat.simps) (simp add: dec_snoc)
  qed
qed

lemma length_str_nat: "n < 10 ^ w \<Longrightarrow> 0 < w \<Longrightarrow> length (str_nat n) \<le> w"
proof (induction n arbitrary: w rule: str_nat.induct)
  case (1 n)
  show ?case
  proof (cases "n < 10")
    case True
    with 1(3) show ?thesis by (subst str_nat.simps) simp
  next
    case False
    with 1(2) have w: "1 < w" by (cases "w = 1") (use 1(3) in auto)
    then obtain v where v: "w = Suc v" "0 < v" by (cases w) auto
    with 1(2) have "n div 10 < 10 ^ v" by (simp add: less_mult_imp_div_less mult.commute)
    with 1(1) False v have "length (str_nat (n div 10)) \<le> v" by simp
    with False v show ?thesis by (subst str_nat.simps) simp
  qed
qed

lemma length_pad: "n < 10 ^ w \<Longrightarrow> 0 < w \<Longrightarrow> length (pad w n) = w"
  using length_str_nat [of n w] by (simp add: pad_def)

lemma is_digit_zero: "is_digit CHR ''0''" "digit_of CHR ''0'' = 0"
  by (simp_all add: is_digit_def digit_of_def)

lemma pad_all_digits: "list_all is_digit (pad w n)"
  unfolding pad_def using str_nat_all_digits [of n] is_digit_zero(1)
  by (auto simp: list_all_iff)

lemma dec_foldl: "foldl (\<lambda>a c. 10 * a + digit_of c) a xs = a * 10 ^ length xs + dec xs"
proof (induction xs arbitrary: a)
  case Nil
  then show ?case by (simp add: dec_def)
next
  case (Cons x xs)
  have "foldl (\<lambda>a c. 10 * a + digit_of c) a (x # xs)
      = (10 * a + digit_of x) * 10 ^ length xs + dec xs"
    using Cons.IH [of "10 * a + digit_of x"] by simp
  moreover have "dec (x # xs) = digit_of x * 10 ^ length xs + dec xs"
    using Cons.IH [of "digit_of x"] by (simp add: dec_def)
  ultimately show ?case by (simp add: algebra_simps)
qed

lemma dec_Cons: "dec (x # xs) = digit_of x * 10 ^ length xs + dec xs"
  using dec_foldl [of "digit_of x" xs] by (simp add: dec_def)

lemma dec_zeros: "dec (replicate j CHR ''0'' @ xs) = dec xs"
  by (induction j) (simp_all add: dec_Cons is_digit_zero)

lemma dec_pad: "dec (pad w n) = n"
  by (simp add: pad_def dec_zeros dec_str_nat)

lemma dec_bound: "list_all is_digit xs \<Longrightarrow> dec xs < 10 ^ length xs"
proof (induction xs)
  case Nil
  then show ?case by (simp add: dec_def)
next
  case (Cons x xs)
  then have "digit_of x \<le> 9" "dec xs < 10 ^ length xs"
    by (auto simp: is_digit_def digit_of_def Let_def)
  then have "digit_of x * 10 ^ length xs + dec xs < 9 * 10 ^ length xs + 10 ^ length xs"
    by (meson add_le_less_mono mult_le_mono1)
  then show ?case by (simp add: dec_Cons)
qed

lemma digit_order:
  assumes "is_digit x" "is_digit y"
  shows "(of_char x :: nat) < of_char y \<longleftrightarrow> digit_of x < digit_of y"
    and "x = y \<longleftrightarrow> digit_of x = digit_of y"
proof -
  show "(of_char x :: nat) < of_char y \<longleftrightarrow> digit_of x < digit_of y"
    using assms by (auto simp: is_digit_def digit_of_def Let_def)
  have "x = y" if "digit_of x = digit_of y"
  proof -
    have "(of_char x :: nat) = of_char y"
      using that assms unfolding is_digit_def digit_of_def Let_def by arith
    then show ?thesis by simp
  qed
  then show "x = y \<longleftrightarrow> digit_of x = digit_of y" by auto
qed

lemma text_order_digits:
  assumes "length xs = length ys" "list_all is_digit xs" "list_all is_digit ys"
  shows "(text_less xs ys \<longleftrightarrow> dec xs < dec ys) \<and> (xs = ys \<longleftrightarrow> dec xs = dec ys)"
  using assms
proof (induction xs ys rule: list_induct2)
  case Nil
  then show ?case by (simp add: dec_def)
next
  case (Cons x xs y ys)
  let ?P = "10 ^ length xs :: nat"
  have len: "length ys = length xs" using Cons.hyps by simp
  have dx: "is_digit x" "is_digit y" using Cons.prems by simp_all
  have bx: "dec xs < ?P" and by': "dec ys < ?P"
    using Cons.prems dec_bound [of xs] dec_bound [of ys] len by simp_all
  have ih: "text_less xs ys \<longleftrightarrow> dec xs < dec ys" "xs = ys \<longleftrightarrow> dec xs = dec ys"
    using Cons by simp_all
  have lt: "digit_of x < digit_of y \<Longrightarrow> digit_of x * ?P + dec xs < digit_of y * ?P + dec ys"
  proof -
    assume "digit_of x < digit_of y"
    then have "Suc (digit_of x) \<le> digit_of y" by simp
    then have "Suc (digit_of x) * ?P \<le> digit_of y * ?P" by (rule mult_le_mono1)
    with bx show ?thesis by simp
  qed
  have gt: "digit_of y < digit_of x \<Longrightarrow> digit_of y * ?P + dec ys < digit_of x * ?P + dec xs"
  proof -
    assume "digit_of y < digit_of x"
    then have "Suc (digit_of y) \<le> digit_of x" by simp
    then have "Suc (digit_of y) * ?P \<le> digit_of x * ?P" by (rule mult_le_mono1)
    with by' show ?thesis by simp
  qed
  consider "digit_of x < digit_of y" | "digit_of y < digit_of x" | "digit_of x = digit_of y"
    by linarith
  then show ?case
  proof cases
    case 1
    with lt digit_order [OF dx] show ?thesis by (auto simp: dec_Cons len)
  next
    case 2
    with gt digit_order [OF dx] show ?thesis by (auto simp: dec_Cons len)
  next
    case 3
    with ih digit_order [OF dx] show ?thesis by (auto simp: dec_Cons len)
  qed
qed

lemma pad_order:
  assumes "m < 10 ^ w" "n < 10 ^ w" "0 < w"
  shows "text_less (pad w m) (pad w n) \<longleftrightarrow> m < n" "pad w m = pad w n \<longleftrightarrow> m = n"
  using text_order_digits [of "pad w m" "pad w n"] assms
  by (simp_all add: length_pad pad_all_digits dec_pad)

lemma text_less_append:
  assumes "length a = length a'"
  shows "text_less (a @ b) (a' @ b') \<longleftrightarrow> text_less a a' \<or> (a = a' \<and> text_less b b')"
  using assms by (induction a a' rule: list_induct2) auto

lemma text_less_irrefl: "\<not> text_less a a"
  by (induction a) auto

section \<open>Dates, times and their texts\<close>

lemma days_in_month_bounds: "28 \<le> days_in_month y m" "days_in_month y m \<le> 31"
  by (simp_all add: days_in_month_def)





lemma plus_days_time:
  "hour (plus_days n d) = hour d" "minute (plus_days n d) = minute d"
  "second (plus_days n d) = second d" "microsecond (plus_days n d) = microsecond d"
  by (induction n arbitrary: d) (simp_all add: next_day_def)

lemma field_bounds:
  assumes "valid_datetime d"
  shows "year d < 10 ^ 4" "month d < 10 ^ 2" "day d < 10 ^ 2" "hour d < 10 ^ 2"
    "minute d < 10 ^ 2" "second d < 10 ^ 2" "microsecond d < 10 ^ 6"
  using assms days_in_month_bounds(2) [of "year d" "month d"]
  by (simp_all add: valid_datetime_def)

lemma isoformat_order:
  assumes "valid_datetime a" "valid_datetime b" "microsecond a = 0"
  shows "text_less (isoformat a) (isoformat b) \<longleftrightarrow> dt_less a b"
proof -
  note fa = field_bounds [OF assms(1)] and fb = field_bounds [OF assms(2)]
  have l4: "length (pad 4 (year a)) = length (pad 4 (year b))"
    using fa(1) fb(1) by (simp add: length_pad)
  have l2: "length (pad 2 (month a)) = length (pad 2 (month b))"
    "length (pad 2 (day a)) = length (pad 2 (day b))"
    "length (pad 2 (hour a)) = length (pad 2 (hour b))"
    "length (pad 2 (minute a)) = length (pad 2 (minute b))"
    "length (pad 2 (second a)) = length (pad 2 (second b))"
    using fa fb by (simp_all add: length_pad)
  have sep: "length [c :: char] = length [c]" for c by simp
  have frac: "text_less [] (if microsecond b = 0 then [] else ''.'' @ pad 6 (microsecond b))
      \<longleftrightarrow> 0 < microsecond b" by simp
  have "text_less (isoformat a) (isoformat b) \<longleftrightarrow>
     text_less (pad 4 (year a)) (pad 4 (year b)) \<or> (pad 4 (year a) = pad 4 (year b) \<and>
     (text_less (pad 2 (month a)) (pad 2 (month b)) \<or> (pad 2 (month a) = pad 2 (month b) \<and>
     (text_less (pad 2 (day a)) (pad 2 (day b)) \<or> (pad 2 (day a) = pad 2 (day b) \<and>
     (text_less (pad 2 (hour a)) (pad 2 (hour b)) \<or> (pad 2 (hour a) = pad 2 (hour b) \<and>
     (text_less (pad 2 (minute a)) (pad 2 (minute b)) \<or> (pad 2 (minute a) = pad 2 (minute b) \<and>
     (text_less (pad 2 (second a)) (pad 2 (second b)) \<or> (pad 2 (second a) = pad 2 (second b) \<and>
      0 < microsecond b)))))))))))"
    unfolding isoformat_def
    by (simp only: text_less_append [OF l4] text_less_append [OF l2(1)]
        text_less_append [OF l2(2)] text_less_append [OF l2(3)] text_less_append [OF l2(4)]
        text_less_append [OF l2(5)] text_less_append [OF sep] text_less_irrefl
        assms(3) if_True frac simp_thms)
  also have "\<dots> \<longleftrightarrow> dt_less a b"
    using fa fb assms(3) by (simp add: pad_order dt_less_def)
  finally show ?thesis .
qed

section \<open>Session tokens\<close>

lemma plus_days_within_month:
  "day d + n \<le> days_in_month (year d) (month d) \<Longrightarrow> plus_days n d = d\<lparr>day := day d + n\<rparr>"
proof (induction n arbitrary: d)
  case 0
  then show ?case by simp
next
  case (Suc n)
  then have step: "next_day d = d\<lparr>day := day d + 1\<rparr>" by (simp add: next_day_def)
  with Suc.prems have "day (next_day d) + n \<le> days_in_month (year (next_day d)) (month (next_day d))"
    by simp
  then have "plus_days n (next_day d) = (next_day d)\<lparr>day := day (next_day d) + n\<rparr>"
    by (rule Suc.IH)
  with step show ?case by simp
qed

lemma current_timestamp_order:
  assumes "valid_datetime (utc_now c)" "valid_datetime e"
  shows "text_less (current_timestamp c) (isoformat e)
           \<longleftrightarrow> dt_less ((utc_now c)\<lparr>microsecond := 0\<rparr>) e"
proof -
  have "valid_datetime ((utc_now c)\<lparr>microsecond := 0\<rparr>)"
    using assms(1) by (simp add: valid_datetime_def)
  then show ?thesis
    unfolding current_timestamp_def using assms(2) by (simp add: isoformat_order)
qed

lemma filter_unique_row:
  assumes "distinct (map session_token rows)" "r \<in> set rows" "session_token r = token"
  shows "filter (\<lambda>x. session_token x = token \<and> P x) rows = (if P r then [r] else [])"
  using assms
proof (induction rows)
  case Nil
  then show ?case by simp
next
  case (Cons x xs)
  show ?case
  proof (cases "x = r")
    case True
    with Cons.prems have "\<forall>y \<in> set xs. session_token y \<noteq> token"
      by (force simp: image_iff)
    then have "filter (\<lambda>x. session_token x = token \<and> P x) xs = []" by (simp add: filter_empty_conv)
    with True Cons.prems show ?thesis by simp
  next
    case False
    with Cons.prems have "r \<in> set xs" "session_token x \<noteq> token" "distinct (map session_token xs)"
      by (auto simp: image_iff)
    with Cons.IH Cons.prems show ?thesis by simp
  qed
qed

lemma verify_Some_row:
  assumes "verify_session_token db c token = Inr (Some uid)"
  shows "openable db \<and> queryable db \<and> (\<exists>r \<in> set (user_sessions db).
           session_token r = token \<and> user_id r = uid
           \<and> text_less (current_timestamp c) (expires_at r))"
proof -
  from assms have re: "openable db" "queryable db"
    by (auto simp: verify_session_token_def split: if_splits)
  with assms obtain r rs where
    f: "filter (\<lambda>r. session_token r = token \<and> text_less (current_timestamp c) (expires_at r))
          (user_sessions db) = r # rs"
    and u: "user_id r = uid"
    by (auto simp: verify_session_token_def split: list.splits)
  have "r \<in> set (filter (\<lambda>r. session_token r = token
          \<and> text_less (current_timestamp c) (expires_at r)) (user_sessions db))"
    by (simp add: f)
  then show ?thesis using re u by auto
qed

lemma verify_row_Some:
  assumes "openable db" "queryable db" "distinct (map session_token (user_sessions db))"
    "r \<in> set (user_sessions db)" "session_token r = token"
    "text_less (current_timestamp c) (expires_at r)"
  shows "verify_session_token db c token = Inr (Some (user_id r))"
  using assms filter_unique_row [of "user_sessions db" r token
      "\<lambda>x. text_less (current_timestamp c) (expires_at x)"]
  by (simp add: verify_session_token_def)


lemma create_session_token_row:
  assumes "create_session_token db c0 new_token new_uid = (Inr tok, db')"
  shows "tok = new_token" "openable db'" "queryable db'"
    "new_token \<notin> set (map session_token (user_sessions db))"
    "year (plus_days 7 (local_now c0)) \<le> 9999"
    "user_sessions db' = user_sessions db @
       [\<lparr>user_id = new_uid, session_token = new_token, created_at = current_timestamp c0,
         expires_at = isoformat (plus_days 7 (local_now c0))\<rparr>]"
  using assms by (auto simp: create_session_token_def Let_def split: if_splits)

lemma verify_new_token:
  assumes "distinct (map session_token (user_sessions db))"
    and "create_session_token db c0 new_token new_uid = (Inr tok, db')"
  shows "verify_session_token db' c new_token = Inr (Some new_uid) \<longleftrightarrow>
           text_less (current_timestamp c) (isoformat (plus_days 7 (local_now c0)))"
proof -
  let ?row = "\<lparr>user_id = new_uid, session_token = new_token, created_at = current_timestamp c0,
         expires_at = isoformat (plus_days 7 (local_now c0))\<rparr>"
  note cr = create_session_token_row [OF assms(2)]
  have dist: "distinct (map session_token (user_sessions db'))"
    using assms(1) cr(4) cr(6) by simp
  have mem: "?row \<in> set (user_sessions db')" using cr(6) by simp
  show ?thesis
  proof
    assume "verify_session_token db' c new_token = Inr (Some new_uid)"
    then obtain r where r: "r \<in> set (user_sessions db')" "session_token r = new_token"
        "text_less (current_timestamp c) (expires_at r)"
      using verify_Some_row by blast
    with cr(4) cr(6) have "r = ?row" by auto
    with r(3) show "text_less (current_timestamp c) (isoformat (plus_days 7 (local_now c0)))"
      by simp
  next
    assume "text_less (current_timestamp c) (isoformat (plus_days 7 (local_now c0)))"
    then show "verify_session_token db' c new_token = Inr (Some new_uid)"
      using verify_row_Some [OF cr(2) cr(3) dist mem, of new_token c] by simp
  qed
qed


lemma valid_at_time:
  "valid_datetime (at_time y mo d h mi s us) \<longleftrightarrow>
     1 \<le> y \<and> y \<le> 9999 \<and> 1 \<le> mo \<and> mo \<le> 12 \<and> 1 \<le> d \<and> d \<le> days_in_month y mo
     \<and> h < 24 \<and> mi < 60 \<and> s < 60 \<and> us < 1000000"
  by (simp add: valid_datetime_def at_time_def)

lemma dt_less_at_time:
  "dt_less (at_time y mo d h mi s us) (at_time y' mo' d' h' mi' s' us') \<longleftrightarrow>
     y < y' \<or> (y = y' \<and> (mo < mo' \<or> (mo = mo' \<and> (d < d' \<or> (d = d' \<and>
     (h < h' \<or> (h = h' \<and> (mi < mi' \<or> (mi = mi' \<and> (s < s' \<or> (s = s' \<and> us < us')))))))))))"
  by (simp add: dt_less_def at_time_def)

lemma truncate_at_time:
  "(at_time y mo d h mi s us)\<lparr>microsecond := 0\<rparr> = at_time y mo d h mi s 0"
  by (simp add: at_time_def)

lemma plus_days_at_time:
  "d + n \<le> days_in_month y mo \<Longrightarrow>
     plus_days n (at_time y mo d h mi s us) = at_time y mo (d + n) h mi s us"
  by (simp add: plus_days_within_month at_time_def)

lemma demo_db_facts:
  "openable demo_db" "queryable demo_db" "distinct (map session_token (user_sessions demo_db))"
  by (simp_all add: demo_db_def)


text \<open>
  Off UTC the two readings of the time differ, and the lifetime of a token differs from
  seven days by the offset of the zone: on a machine five and a half hours ahead of UTC a
  token issued at 12:00:00 local time is still accepted seven days and one hour later.
\<close>

lemma session_outlives_seven_days_off_utc:
  "fst (create_session_token demo_db india_issue ''cc'' 9) = Inr ''cc''
   \<and> dt_less (plus_days 7 (local_now india_issue)) (local_now india_later)
   \<and> dt_less (plus_days 7 (utc_now india_issue)) (utc_now india_later)
   \<and> verify_session_token (snd (create_session_token demo_db india_issue ''cc'' 9))
        india_later ''cc'' = Inr (Some 9)"
proof -
  have p: "plus_days 7 (local_now india_issue) = at_time 2024 1 8 12 0 0 1"
    "plus_days 7 (utc_now india_issue) = at_time 2024 1 8 6 30 0 1"
    by (simp_all add: india_issue_def plus_days_at_time days_in_month_def)
  have y: "year (at_time 2024 1 8 12 0 0 1) \<le> 9999" by (simp add: at_time_def)
  have cr: "create_session_token demo_db india_issue ''cc'' 9
      = (Inr ''cc'', snd (create_session_token demo_db india_issue ''cc'' 9))"
    using y by (simp add: create_session_token_def Let_def p demo_db_def)
  have v: "valid_datetime (utc_now india_later)" "valid_datetime (at_time 2024 1 8 12 0 0 1)"
    by (simp_all add: india_later_def valid_at_time days_in_month_def)
  have "dt_less ((utc_now india_later)\<lparr>microsecond := 0\<rparr>) (at_time 2024 1 8 12 0 0 1)"
    by (simp add: india_later_def truncate_at_time dt_less_at_time)
  with v have "text_less (current_timestamp india_later)
      (isoformat (plus_days 7 (local_now india_issue)))"
    by (simp add: current_timestamp_order p)
  then have a: "verify_session_token (snd (create_session_token demo_db india_issue ''cc'' 9))
        india_later ''cc'' = Inr (Some 9)"
    using verify_new_token [OF demo_db_facts(3) cr, of india_later] by simp
  have b: "dt_less (plus_days 7 (local_now india_issue)) (local_now india_later)"
    "dt_less (plus_days 7 (utc_now india_issue)) (utc_now india_later)"
    by (simp_all add: p india_later_def dt_less_at_time)
  have c: "fst (create_session_token demo_db india_issue ''cc'' 9) = Inr ''cc''"
    using cr by (metis fst_conv)
  show ?thesis using a b c by blast
qed


end
